theory Spec2Isabelle
  imports Complex_Main
begin

section \<open>The geocode resolution service of \<^verbatim>\<open>geoService.ts\<close>\<close>

text \<open>
  A shallow embedding of \<^verbatim>\<open>src/code/src/lava/bingmap/geoService.ts\<close>. The module's
  variables (\<^verbatim>\<open>_injected\<close>, \<^verbatim>\<open>_initCache\<close>, \<^verbatim>\<open>geocodeCache\<close>, \<^verbatim>\<open>geocodeQueue\<close>,
  \<^verbatim>\<open>activeRequests\<close>, \<^verbatim>\<open>dequeueTimeoutId\<close>) are the fields of one state record that
  every function takes and returns. What the module hands to the runtime is part of the
  state too: the timers set with \<^verbatim>\<open>setTimeout\<close> and not yet fired, the \<^verbatim>\<open>fetch\<close>
  calls not yet settled, and the list of calls made to the completions (\<^verbatim>\<open>then\<close>).

  Modelling decisions:
  \<^item> A JavaScript object used as a string map is the list of its own properties in the
    order \<^verbatim>\<open>Object.keys\<close> reports them; properties inherited from
    \<^verbatim>\<open>Object.prototype\<close> are outside the model.
  \<^item> A value that may be \<^verbatim>\<open>null\<close> or \<^verbatim>\<open>undefined\<close> is an \<open>option\<close>.
  \<^item> Objects are held by value. Where the source writes a field of an object that a
    table also holds (\<^verbatim>\<open>loc.address = addr\<close>), the model writes the table's entry.
    A completion is an opaque identifier: the call is recorded with the value of its
    argument at that moment; the completion neither throws nor calls back into the
    module.
  \<^item> Numbers that the code only copies (coordinates) are \<open>real\<close>; counters and
    settings are integers.
\<close>

subsection \<open>Objects as ordered property tables\<close>

type_synonym 'v StringMap = "(string \<times> 'v) list"

definition is_digit :: "char \<Rightarrow> bool" where
  "is_digit c = (let n = (of_char c :: nat) in 48 \<le> n \<and> n \<le> 57)"

definition decimal :: "string \<Rightarrow> nat" where
  "decimal k = foldl (\<lambda>a c. 10 * a + ((of_char c :: nat) - 48)) 0 k"

text \<open>
  An array index is the canonical decimal numeral of an integer below \<open>2^32 - 1\<close>.
  \<^verbatim>\<open>Object.keys\<close> lists such keys first, in ascending numeric order, and every other
  key after them in the order of creation.
\<close>

definition array_index :: "string \<Rightarrow> nat option" where
  "array_index k =
     (if k \<noteq> [] \<and> list_all is_digit k \<and> (hd k \<noteq> CHR ''0'' \<or> k = ''0'')
         \<and> decimal k < 4294967295
      then Some (decimal k) else None)"

definition obj_keys :: "'v StringMap \<Rightarrow> string list" where
  "obj_keys m = map fst m"

definition obj_get :: "'v StringMap \<Rightarrow> string \<Rightarrow> 'v option" where
  "obj_get m k = map_of m k"

definition obj_in :: "string \<Rightarrow> 'v StringMap \<Rightarrow> bool" where
  "obj_in k m = (k \<in> set (obj_keys m))"

definition obj_delete :: "string \<Rightarrow> 'v StringMap \<Rightarrow> 'v StringMap" where
  "obj_delete k m = filter (\<lambda>p. fst p \<noteq> k) m"

fun obj_add :: "string \<Rightarrow> 'v \<Rightarrow> 'v StringMap \<Rightarrow> 'v StringMap" where
  "obj_add k v [] = [(k, v)]"
| "obj_add k v (p # m) =
     (case array_index k of
        None \<Rightarrow> p # obj_add k v m
      | Some n \<Rightarrow>
          (case array_index (fst p) of
             None \<Rightarrow> (k, v) # p # m
           | Some i \<Rightarrow> if i < n then p # obj_add k v m else (k, v) # p # m))"

definition obj_set :: "string \<Rightarrow> 'v \<Rightarrow> 'v StringMap \<Rightarrow> 'v StringMap" where
  "obj_set k v m =
     (if obj_in k m then map (\<lambda>p. if fst p = k then (k, v) else p) m
      else obj_add k v m)"

subsection \<open>Data\<close>

text \<open>
  \<^verbatim>\<open>ILocation\<close> is declared in \<^verbatim>\<open>./converter\<close>; its fields are those of the literal
  that \<^verbatim>\<open>makeRequest\<close> builds.
\<close>

record ILocation =
  latitude :: real
  longitude :: real
  loc_type :: string
  name :: string
  address :: string

definition lower_char :: "char \<Rightarrow> char" where
  "lower_char c =
     (case map_of (zip ''ABCDEFGHIJKLMNOPQRSTUVWXYZ'' ''abcdefghijklmnopqrstuvwxyz'') c of
        Some d \<Rightarrow> d
      | None \<Rightarrow> c)"

text \<open>\<^verbatim>\<open>String.prototype.toLowerCase\<close>, on the ASCII letters.\<close>

definition toLowerCase :: "string \<Rightarrow> string" where
  "toLowerCase s = map lower_char s"

record GeocodeQuery =
  query :: string
  key :: string
  cacheHits :: nat

definition new_GeocodeQuery :: "string \<Rightarrow> GeocodeQuery" where
  "new_GeocodeQuery q = \<lparr>query = q, key = toLowerCase q, cacheHits = 0\<rparr>"

definition incrementCacheHit :: "GeocodeQuery \<Rightarrow> GeocodeQuery" where
  "incrementCacheHit q = q\<lparr>cacheHits := cacheHits q + 1\<rparr>"

definition getCacheHits :: "GeocodeQuery \<Rightarrow> nat" where
  "getCacheHits q = cacheHits q"

record IGeocodeCache =
  cache_query :: GeocodeQuery
  coordinate :: ILocation

type_synonym callback = nat

record IGeocodeQueueItem =
  item_query :: GeocodeQuery
  then_cb :: callback

record settings =
  MaxAzureRequest :: int
  MaxCacheSize :: int
  MaxCacheSizeOverflow :: int

definition default_settings :: settings where
  "default_settings =
     \<lparr>MaxAzureRequest = 6, MaxCacheSize = 3000, MaxCacheSizeOverflow = 1000\<rparr>"

datatype js_error = ERROR_EMPTY | TransportError | ReferenceError | TypeError

record state =
  injected :: "ILocation option StringMap"
  initCacheTbl :: "ILocation option StringMap"
  geocodeCache :: "IGeocodeCache StringMap"
  geocodeQueue :: "IGeocodeQueueItem list"
  activeRequests :: int
  dequeueTimeoutId :: "nat option"
  timers :: "nat list"
  nextTimerId :: nat
  inflight :: "IGeocodeQueueItem list"
  calls :: "(callback \<times> ILocation option) list"

subsection \<open>The adaptive cache\<close>

definition findInCache :: "GeocodeQuery \<Rightarrow> state \<Rightarrow> ILocation option \<times> state" where
  "findInCache q s =
     (case obj_get (geocodeCache s) (key q) of
        Some pair \<Rightarrow>
          (Some (coordinate pair),
           s\<lparr>geocodeCache :=
               obj_set (key q) (pair\<lparr>cache_query := incrementCacheHit (cache_query pair)\<rparr>)
                 (geocodeCache s)\<rparr>)
      | None \<Rightarrow> (None, s))"

definition hits_of :: "IGeocodeCache StringMap \<Rightarrow> string \<Rightarrow> nat" where
  "hits_of cache a =
     (case obj_get cache a of Some e \<Rightarrow> getCacheHits (cache_query e) | None \<Rightarrow> 0)"

text \<open>\<^verbatim>\<open>sorted[i]\<close>: past the end it is \<^verbatim>\<open>undefined\<close>, which as a property key is
  the string \<^verbatim>\<open>"undefined"\<close>.\<close>

definition sorted_at :: "string list \<Rightarrow> nat \<Rightarrow> string" where
  "sorted_at srt i = (if i < length srt then srt ! i else ''undefined'')"

text \<open>Lines 181 to 195 of \<^verbatim>\<open>cacheQuery\<close>: the eviction. \<^verbatim>\<open>Array.prototype.sort\<close> is
  stable, as \<open>sort_key\<close> is.\<close>

definition cacheQuery_evict :: "settings \<Rightarrow> IGeocodeCache StringMap \<Rightarrow> IGeocodeCache StringMap" where
  "cacheQuery_evict st cache =
     (let ks = obj_keys cache;
          cacheSize = int (length ks)
      in if int (length (obj_keys cache)) > MaxCacheSize st + MaxCacheSizeOverflow st
         then
           (let srt = sort_key (hits_of cache) ks
            in fold (\<lambda>i c. obj_delete (sorted_at srt i) c)
                 [0 ..< nat (cacheSize - MaxCacheSize st)] cache)
         else cache)"

definition cacheQuery :: "settings \<Rightarrow> GeocodeQuery \<Rightarrow> ILocation \<Rightarrow> state \<Rightarrow> state" where
  "cacheQuery st q c s =
     s\<lparr>geocodeCache :=
         obj_set (key q) \<lparr>cache_query = q, coordinate = c\<rparr>
           (cacheQuery_evict st (geocodeCache s))\<rparr>"

definition getCacheSize :: "state \<Rightarrow> nat" where
  "getCacheSize s = length (obj_keys (geocodeCache s))"

subsection \<open>The override store and the snapshot\<close>

text \<open>\<^verbatim>\<open>keys\<close> of \<^verbatim>\<open>../type\<close> lists an object's own keys: \<open>obj_keys\<close>.\<close>

definition inject :: "ILocation option StringMap option \<Rightarrow> bool \<Rightarrow> state \<Rightarrow> state" where
  "inject locs0 reset_flag s =
     (let locs = (case locs0 of None \<Rightarrow> [] | Some l \<Rightarrow> l)
      in if reset_flag then s\<lparr>injected := locs\<rparr>
         else s\<lparr>injected :=
                  fold (\<lambda>k tbl.
                          case obj_get locs k of
                            Some (Some loc) \<Rightarrow> obj_set k (Some loc) tbl
                          | _ \<Rightarrow> obj_delete k tbl)
                    (obj_keys locs) (injected s)\<rparr>)"

definition remove :: "(ILocation option \<Rightarrow> bool) \<Rightarrow> state \<Rightarrow> state" where
  "remove wh s =
     s\<lparr>injected :=
         fold (\<lambda>k tbl.
                 if wh (case obj_get tbl k of Some v \<Rightarrow> v | None \<Rightarrow> None)
                 then obj_delete k tbl else tbl)
           (obj_keys (injected s)) (injected s)\<rparr>"

text \<open>Modelled from the spec: \<^verbatim>\<open>copy\<close> of \<^verbatim>\<open>../type\<close>, which is not among the sources,
  "takes an independent deep copy of the supplied table". On values that is the
  identity.\<close>

definition copy :: "'a \<Rightarrow> 'a" where
  "copy x = x"

definition initCache :: "ILocation option StringMap \<Rightarrow> state \<Rightarrow> state" where
  "initCache locs s = s\<lparr>initCacheTbl := copy locs\<rparr>"

subsection \<open>The dispatcher\<close>

text \<open>\<^verbatim>\<open>item.then(v)\<close>: the call is appended to the record of calls.\<close>

definition invoke :: "callback \<Rightarrow> ILocation option \<Rightarrow> state \<Rightarrow> state" where
  "invoke cb v s = s\<lparr>calls := calls s @ [(cb, v)]\<rparr>"

text \<open>\<^verbatim>\<open>setTimeout(() => releaseQuota(1))\<close>: a fresh timer, whose identifier is returned.\<close>

definition setTimeout_release :: "state \<Rightarrow> nat \<times> state" where
  "setTimeout_release s =
     (nextTimerId s,
      s\<lparr>timers := timers s @ [nextTimerId s], nextTimerId := nextTimerId s + 1\<rparr>)"

text \<open>\<^verbatim>\<open>clearTimeout(id)\<close>: the timer, if it is still pending, will not fire.\<close>

definition clearTimeout :: "nat option \<Rightarrow> state \<Rightarrow> state" where
  "clearTimeout tid s =
     (case tid of None \<Rightarrow> s | Some t \<Rightarrow> s\<lparr>timers := filter (\<lambda>u. u \<noteq> t) (timers s)\<rparr>)"

text \<open>\<^verbatim>\<open>cached.address = a\<close> for the coordinate object that the cache holds under \<open>k\<close>.\<close>

definition write_address :: "string \<Rightarrow> string \<Rightarrow> IGeocodeCache StringMap \<Rightarrow> IGeocodeCache StringMap" where
  "write_address k a cache =
     (case obj_get cache k of
        Some pair \<Rightarrow> obj_set k (pair\<lparr>coordinate := (coordinate pair)\<lparr>address := a\<rparr>\<rparr>) cache
      | None \<Rightarrow> cache)"

text \<open>\<^verbatim>\<open>makeRequest\<close> up to the call of \<^verbatim>\<open>fetch\<close>, which leaves the item among the
  requests in flight. The request's URL is not modelled.\<close>

definition makeRequest :: "IGeocodeQueueItem \<Rightarrow> state \<Rightarrow> state" where
  "makeRequest item s =
     (case findInCache (item_query item) s of
        (Some cached, s1) \<Rightarrow>
          (let s2 = s1\<lparr>geocodeCache :=
                       write_address (key (item_query item)) (query (item_query item))
                         (geocodeCache s1)\<rparr>;
               s3 = snd (setTimeout_release s2)
           in invoke (then_cb item) (Some (cached\<lparr>address := query (item_query item)\<rparr>)) s3)
      | (None, s1) \<Rightarrow> s1\<lparr>inflight := inflight s1 @ [item]\<rparr>)"

function releaseQuota_loop :: "settings \<Rightarrow> state \<Rightarrow> state" where
  "releaseQuota_loop st s =
     (if activeRequests s < MaxAzureRequest st
      then (case geocodeQueue s of
              [] \<Rightarrow> s
            | item # rest \<Rightarrow>
                releaseQuota_loop st
                  (makeRequest item
                     (s\<lparr>activeRequests := activeRequests s + 1, geocodeQueue := rest\<rparr>)))
      else s)"
  by pat_completeness auto
termination
  by (relation "measure (\<lambda>(st, s). length (geocodeQueue s))")
     (auto simp: makeRequest_def findInCache_def invoke_def setTimeout_release_def Let_def
           split: option.splits prod.splits)

declare releaseQuota_loop.simps [simp del]

definition releaseQuota :: "settings \<Rightarrow> int \<Rightarrow> state \<Rightarrow> state" where
  "releaseQuota st decrement s =
     releaseQuota_loop st (s\<lparr>activeRequests := activeRequests s - decrement\<rparr>)"

definition geocodeCore :: "settings \<Rightarrow> GeocodeQuery \<Rightarrow> callback \<Rightarrow> state \<Rightarrow> state" where
  "geocodeCore st geocodeQuery cb s =
     (case findInCache geocodeQuery s of
        (Some result, s1) \<Rightarrow>
          invoke cb (Some (result\<lparr>address := query geocodeQuery\<rparr>))
            (s1\<lparr>geocodeCache :=
                  write_address (key geocodeQuery) (query geocodeQuery) (geocodeCache s1)\<rparr>)
      | (None, s1) \<Rightarrow>
          releaseQuota st 0
            (s1\<lparr>geocodeQueue :=
                  geocodeQueue s1 @ [\<lparr>item_query = geocodeQuery, then_cb = cb\<rparr>]\<rparr>))"

text \<open>\<^verbatim>\<open>completeRequest(item, error, coordinate)\<close>. Its three calls pass an error and
  \<^verbatim>\<open>null\<close>, or \<^verbatim>\<open>null\<close> and a location: a sum. The location that is cached is the
  object whose address is written on the next line.\<close>

definition completeRequest :: "settings \<Rightarrow> IGeocodeQueueItem \<Rightarrow> js_error + ILocation \<Rightarrow> state \<Rightarrow> state" where
  "completeRequest st item r s =
     (let (tid, s1) = setTimeout_release s;
          s2 = s1\<lparr>dequeueTimeoutId := Some tid\<rparr>
      in case r of
           Inl err \<Rightarrow> invoke (then_cb item) None s2
         | Inr coord \<Rightarrow>
             (let c = coord\<lparr>address := query (item_query item)\<rparr>
              in invoke (then_cb item) (Some c) (cacheQuery st (item_query item) c s2)))"

subsection \<open>The provider's answer\<close>

record AzureResult =
  r_position :: "(real \<times> real) option"
  r_poi :: "string option option"
  r_address :: "string option option"
  r_type :: "string option"

text \<open>\<^verbatim>\<open>x || d\<close> for a string that may be absent: the empty string is falsy too.\<close>

definition or_else :: "string option \<Rightarrow> string \<Rightarrow> string" where
  "or_else x d = (case x of Some s \<Rightarrow> if s \<noteq> [] then s else d | None \<Rightarrow> d)"

text \<open>\<^verbatim>\<open>o && o.f\<close> for an object that may be absent.\<close>

definition and_field :: "'a option option \<Rightarrow> 'a option" where
  "and_field x = (case x of Some f \<Rightarrow> f | None \<Rightarrow> None)"

definition getBestResultIndex :: "AzureResult list \<Rightarrow> GeocodeQuery \<Rightarrow> int" where
  "getBestResultIndex resources q = 0"

text \<open>
  The handler of line 274, \<^verbatim>\<open>.then(data => ...)\<close>; \<open>Inl\<close> is what it throws. It calls
  \<^verbatim>\<open>getBestResultIndexAzure\<close>, a name that the module neither declares nor imports:
  \<open>gbi\<close> is what the global scope binds to that name, \<open>None\<close> when it binds nothing, and
  then the call throws a \<^verbatim>\<open>ReferenceError\<close>. \<open>None\<close> for the data is a body that is
  falsy or whose \<^verbatim>\<open>results\<close> is not an array.
\<close>

definition makeRequest_then ::
  "settings \<Rightarrow> (AzureResult list \<Rightarrow> GeocodeQuery \<Rightarrow> int) option \<Rightarrow> IGeocodeQueueItem
     \<Rightarrow> AzureResult list option \<Rightarrow> state \<Rightarrow> js_error + state" where
  "makeRequest_then st gbi item data s =
     (case data of
        None \<Rightarrow> Inr (completeRequest st item (Inl ERROR_EMPTY) s)
      | Some results \<Rightarrow>
          if length results < 1 then Inr (completeRequest st item (Inl ERROR_EMPTY) s)
          else
            (case gbi of
               None \<Rightarrow> Inl ReferenceError
             | Some getBestResultIndexAzure \<Rightarrow>
                 (let index = getBestResultIndexAzure results (item_query item)
                  in if 0 \<le> index \<and> index < int (length results)
                     then
                       (let best = results ! nat index
                        in case r_position best of
                             None \<Rightarrow> Inl TypeError
                           | Some (lat, lon) \<Rightarrow>
                               (let displayName =
                                      or_else (and_field (r_poi best))
                                        (or_else (and_field (r_address best))
                                           (query (item_query item)));
                                    coord = \<lparr>latitude = lat, longitude = lon,
                                             loc_type = or_else (r_type best) ''Geography'',
                                             name = displayName,
                                             address = query (item_query item)\<rparr>
                                in Inr (completeRequest st item (Inr coord) s)))
                     else Inl TypeError)))"

text \<open>How a \<^verbatim>\<open>fetch\<close> settles: it rejects, or the status is not ok, or the body is
  not JSON (\<open>TransportFailure\<close>), or the body is parsed (\<open>Data\<close>).\<close>

datatype fetch_result = TransportFailure | Data "AzureResult list option"

text \<open>The promise chain of \<^verbatim>\<open>makeRequest\<close>: what the handler throws, \<^verbatim>\<open>.catch\<close>
  hands to \<^verbatim>\<open>completeRequest\<close>.\<close>

definition makeRequest_settled ::
  "settings \<Rightarrow> (AzureResult list \<Rightarrow> GeocodeQuery \<Rightarrow> int) option \<Rightarrow> IGeocodeQueueItem
     \<Rightarrow> fetch_result \<Rightarrow> state \<Rightarrow> state" where
  "makeRequest_settled st gbi item r s =
     (case r of
        TransportFailure \<Rightarrow> completeRequest st item (Inl TransportError) s
      | Data data \<Rightarrow>
          (case makeRequest_then st gbi item data s of
             Inr s' \<Rightarrow> s'
           | Inl err \<Rightarrow> completeRequest st item (Inl err) s))"

subsection \<open>The facade\<close>

text \<open>\<^verbatim>\<open>query(addr)\<close>, without a completion.\<close>

definition query_sync :: "string \<Rightarrow> state \<Rightarrow> ILocation option \<times> state" where
  "query_sync addr s =
     (case obj_get (injected s) addr of
        Some (Some loc) \<Rightarrow> (Some loc, s)
      | _ \<Rightarrow>
          (case obj_get (initCacheTbl s) addr of
             Some (Some loc) \<Rightarrow> (Some loc, s)
           | _ \<Rightarrow>
               (case obj_get (geocodeCache s) (toLowerCase addr) of
                  Some rec \<Rightarrow>
                    (Some (coordinate rec),
                     s\<lparr>geocodeCache :=
                         obj_set (toLowerCase addr)
                           (rec\<lparr>cache_query := incrementCacheHit (cache_query rec)\<rparr>)
                           (geocodeCache s)\<rparr>)
                | None \<Rightarrow> (None, s))))"

text \<open>\<^verbatim>\<open>query(addr, then)\<close>. Writing \<^verbatim>\<open>loc.address\<close> of a snapshot entry that is
  \<^verbatim>\<open>null\<close> throws.\<close>

definition query_async :: "settings \<Rightarrow> string \<Rightarrow> callback \<Rightarrow> state \<Rightarrow> js_error + state" where
  "query_async st addr cb s =
     (case obj_get (injected s) addr of
        Some (Some loc) \<Rightarrow>
          Inr (invoke cb (Some (loc\<lparr>address := addr\<rparr>))
                 (s\<lparr>injected := obj_set addr (Some (loc\<lparr>address := addr\<rparr>)) (injected s)\<rparr>))
      | _ \<Rightarrow>
          if obj_in addr (initCacheTbl s)
          then (case obj_get (initCacheTbl s) addr of
                  Some (Some loc) \<Rightarrow>
                    Inr (invoke cb (Some (loc\<lparr>address := addr\<rparr>))
                           (s\<lparr>initCacheTbl :=
                                 obj_set addr (Some (loc\<lparr>address := addr\<rparr>)) (initCacheTbl s)\<rparr>))
                | _ \<Rightarrow> Inl TypeError)
          else Inr (geocodeCore st (new_GeocodeQuery addr) cb s))"

definition reset :: "state \<Rightarrow> state" where
  "reset s =
     (clearTimeout (dequeueTimeoutId s)
        (s\<lparr>geocodeCache := [], geocodeQueue := [], activeRequests := 0\<rparr>))
       \<lparr>dequeueTimeoutId := None\<rparr>"

text \<open>The state once the module is loaded: the tables are empty, and \<^verbatim>\<open>reset()\<close> has run.\<close>

definition initial :: state where
  "initial =
     \<lparr>injected = [], initCacheTbl = [], geocodeCache = [], geocodeQueue = [],
      activeRequests = 0, dequeueTimeoutId = None, timers = [], nextTimerId = 0,
      inflight = [], calls = []\<rparr>"

subsection \<open>Runs\<close>

text \<open>What can happen to the module: a call of one of its functions, a timer that
  fires, a request in flight that settles.\<close>

datatype event =
    Inject "ILocation option StringMap option" bool
  | Remove "ILocation option \<Rightarrow> bool"
  | InitCache "ILocation option StringMap"
  | QuerySync string
  | QueryAsync string callback
  | TimerFires nat
  | FetchSettles nat fetch_result
  | Reset

definition step ::
  "settings \<Rightarrow> (AzureResult list \<Rightarrow> GeocodeQuery \<Rightarrow> int) option \<Rightarrow> event \<Rightarrow> state \<Rightarrow> state" where
  "step st gbi ev s =
     (case ev of
        Inject locs reset_flag \<Rightarrow> inject locs reset_flag s
      | Remove wh \<Rightarrow> remove wh s
      | InitCache locs \<Rightarrow> initCache locs s
      | QuerySync addr \<Rightarrow> snd (query_sync addr s)
      | QueryAsync addr cb \<Rightarrow> (case query_async st addr cb s of Inr s' \<Rightarrow> s' | Inl err \<Rightarrow> s)
      | TimerFires t \<Rightarrow>
          if t \<in> set (timers s)
          then releaseQuota st 1 (s\<lparr>timers := filter (\<lambda>u. u \<noteq> t) (timers s)\<rparr>)
          else s
      | FetchSettles i r \<Rightarrow>
          if i < length (inflight s)
          then makeRequest_settled st gbi (inflight s ! i) r
                 (s\<lparr>inflight := take i (inflight s) @ drop (Suc i) (inflight s)\<rparr>)
          else s
      | Reset \<Rightarrow> reset s)"

definition run ::
  "settings \<Rightarrow> (AzureResult list \<Rightarrow> GeocodeQuery \<Rightarrow> int) option \<Rightarrow> event list \<Rightarrow> state \<Rightarrow> state" where
  "run st gbi evs s = fold (step st gbi) evs s"

subsection \<open>Sequences of insertions\<close>

text \<open>A sequence of calls of \<^verbatim>\<open>cacheQuery\<close>, and \<open>n\<close> queries with \<open>n\<close> different
  keys (\<^verbatim>\<open>"a"\<close>, \<^verbatim>\<open>"aa"\<close>, ...).\<close>

definition cacheQuery_all :: "settings \<Rightarrow> (GeocodeQuery \<times> ILocation) list \<Rightarrow> state \<Rightarrow> state" where
  "cacheQuery_all st ins s = fold (\<lambda>(q, c). cacheQuery st q c) ins s"

definition somewhere :: ILocation where
  "somewhere = \<lparr>latitude = 0, longitude = 0, loc_type = ''Geography'', name = [], address = []\<rparr>"

definition distinct_inserts :: "nat \<Rightarrow> (GeocodeQuery \<times> ILocation) list" where
  "distinct_inserts n =
     map (\<lambda>i. (new_GeocodeQuery (replicate (Suc i) (CHR ''a'')), somewhere)) [0 ..< n]"

text \<open>One turn of the loop of \<^verbatim>\<open>releaseQuota\<close>, for the item at the head of the
  queue; and the number of turns that the counter allows after a decrement.\<close>

definition dispatch :: "IGeocodeQueueItem \<Rightarrow> state \<Rightarrow> state" where
  "dispatch item s =
     makeRequest item
       (s\<lparr>activeRequests := activeRequests s + 1, geocodeQueue := tl (geocodeQueue s)\<rparr>)"

definition slots :: "settings \<Rightarrow> int \<Rightarrow> state \<Rightarrow> nat" where
  "slots st decrement s = nat (MaxAzureRequest st - (activeRequests s - decrement))"

definition entry :: "string \<Rightarrow> nat \<Rightarrow> string \<times> IGeocodeCache" where
  "entry k h =
     (k, \<lparr>cache_query = \<lparr>query = k, key = k, cacheHits = h\<rparr>, coordinate = somewhere\<rparr>)"

text \<open>A cache of five entries whose hit counts are 5, 0, 3, 1 and 8.\<close>

definition five_entries :: state where
  "five_entries =
     initial\<lparr>geocodeCache :=
       [entry ''a'' 5, entry ''b'' 0, entry ''c'' 3, entry ''d'' 1, entry ''e'' 8]\<rparr>"

text \<open>Nine requests for nine addresses that no table holds. With the default settings
  six of them are in flight and three are queued.\<close>

definition nine_queries :: "event list" where
  "nine_queries =
     [QueryAsync ''a'' 1, QueryAsync ''b'' 2, QueryAsync ''c'' 3, QueryAsync ''d'' 4,
      QueryAsync ''e'' 5, QueryAsync ''f'' 6, QueryAsync ''g'' 7, QueryAsync ''h'' 8,
      QueryAsync ''i'' 9]"

definition at_capacity :: state where
  "at_capacity = run default_settings None nine_queries initial"



text \<open>A candidate of a provider's answer, with every field present.\<close>

definition one_result :: AzureResult where
  "one_result =
     \<lparr>r_position = Some (47, - 122), r_poi = Some (Some ''Space Needle''),
      r_address = Some (Some ''400 Broad St''), r_type = Some ''POI''\<rparr>"

section \<open>Properties\<close>

subsection \<open>Property tables\<close>

lemma keys_obj_add: "set (obj_keys (obj_add k v m)) = insert k (set (obj_keys m))"
  by (induction m) (auto simp: obj_keys_def split: option.splits)

lemma length_obj_add: "length (obj_add k v m) = Suc (length m)"
  by (induction m) (auto split: option.splits)

lemma distinct_obj_add:
  "k \<notin> set (obj_keys m) \<Longrightarrow> distinct (obj_keys m) \<Longrightarrow> distinct (obj_keys (obj_add k v m))"
proof (induction m)
  case Nil
  then show ?case by (simp add: obj_keys_def)
next
  case (Cons p m)
  have "set (map fst (obj_add k v m)) = insert k (set (map fst m))"
    using keys_obj_add [of k v m] by (simp add: obj_keys_def)
  with Cons show ?case
    by (auto simp: obj_keys_def split: option.splits)
qed




lemma obj_keys_replace:
  "obj_keys (map (\<lambda>p. if fst p = k then (k, v) else p) m) = obj_keys m"
  by (induction m) (auto simp: obj_keys_def)

lemma keys_obj_set: "set (obj_keys (obj_set k v m)) = insert k (set (obj_keys m))"
  by (auto simp: obj_set_def obj_in_def keys_obj_add obj_keys_replace)

lemma length_obj_set:
  "length (obj_set k v m) = (if obj_in k m then length m else Suc (length m))"
  by (simp add: obj_set_def length_obj_add)

lemma distinct_obj_set:
  "distinct (obj_keys m) \<Longrightarrow> distinct (obj_keys (obj_set k v m))"
  by (simp add: obj_set_def obj_in_def distinct_obj_add obj_keys_replace)

lemma obj_get_obj_delete:
  "obj_get (obj_delete k m) k' = (if k' = k then None else obj_get m k')"
  by (induction m) (auto simp: obj_get_def obj_delete_def)

lemma keys_obj_delete: "set (obj_keys (obj_delete k m)) = set (obj_keys m) - {k}"
  by (auto simp: obj_keys_def obj_delete_def)

lemma distinct_obj_delete: "distinct (obj_keys m) \<Longrightarrow> distinct (obj_keys (obj_delete k m))"
  by (simp add: obj_keys_def obj_delete_def distinct_map_filter)


subsection \<open>Eviction\<close>

lemma fold_delete_filter:
  "fold (\<lambda>i c. obj_delete (g i) c) is m = filter (\<lambda>p. fst p \<notin> g ` set is) m"
proof (induction "is" arbitrary: m)
  case Nil
  then show ?case by simp
next
  case (Cons i "is")
  have "fold (\<lambda>i c. obj_delete (g i) c) (i # is) m
          = filter (\<lambda>p. fst p \<notin> g ` set is) (obj_delete (g i) m)"
    by (simp add: Cons.IH)
  also have "\<dots> = filter (\<lambda>p. fst p \<notin> g ` set (i # is)) m"
    unfolding obj_delete_def filter_filter by (rule filter_cong) auto
  finally show ?case .
qed

lemma sorted_at_image:
  "n \<le> length srt \<Longrightarrow> sorted_at srt ` set [0..<n] = set (take n srt)"
proof -
  assume n: "n \<le> length srt"
  have "set (take n srt) = {srt ! i | i. i < n}"
    using n by (auto simp: in_set_conv_nth) (metis min.absorb2 nth_take n)+
  moreover have "sorted_at srt ` set [0..<n] = {srt ! i | i. i < n}"
    using n by (auto simp: sorted_at_def)
  ultimately show ?thesis by simp
qed

lemma evict_unchanged:
  "\<not> int (length cache) > MaxCacheSize st + MaxCacheSizeOverflow st
     \<Longrightarrow> cacheQuery_evict st cache = cache"
  by (simp add: cacheQuery_evict_def obj_keys_def Let_def)

lemma evict_filter:
  assumes "0 \<le> MaxCacheSize st"
    and "int (length cache) > MaxCacheSize st + MaxCacheSizeOverflow st"
  shows "cacheQuery_evict st cache
           = filter (\<lambda>p. fst p \<notin> set (take (nat (int (length cache) - MaxCacheSize st))
                                         (sort_key (hits_of cache) (obj_keys cache)))) cache"
proof -
  have "nat (int (length cache) - MaxCacheSize st) \<le> length (sort_key (hits_of cache) (obj_keys cache))"
    using assms(1) by (simp add: obj_keys_def)
  from sorted_at_image [OF this] show ?thesis
    using assms(2) by (simp add: cacheQuery_evict_def Let_def fold_delete_filter obj_keys_def)
qed

lemma length_filter_keys:
  assumes "distinct (obj_keys m)" and "E \<subseteq> set (obj_keys m)"
  shows "length (filter (\<lambda>p. fst p \<notin> E) m) = length m - card E"
proof -
  have "length (filter (\<lambda>p. fst p \<notin> E) m) = length (filter (\<lambda>k. k \<notin> E) (map fst m))"
    by (simp add: filter_map comp_def)
  also have "\<dots> = card ({k. k \<notin> E} \<inter> set (map fst m))"
    using assms(1) unfolding obj_keys_def by (rule distinct_length_filter)
  also have "{k. k \<notin> E} \<inter> set (map fst m) = set (map fst m) - E"
    by auto
  also have "card (set (map fst m) - E) = card (set (map fst m)) - card E"
    using assms(2) by (simp add: card_Diff_subset finite_subset obj_keys_def)
  also have "card (set (map fst m)) = length m"
    using distinct_card [of "map fst m"] assms(1) unfolding obj_keys_def by simp
  finally show ?thesis .
qed

lemma card_take_sorted:
  assumes "distinct ks" and "n \<le> length ks"
  shows "card (set (take n (sort_key f ks))) = n"
proof -
  have "distinct (take n (sort_key f ks))"
    using assms(1) by (simp add: distinct_take)
  then have "card (set (take n (sort_key f ks))) = length (take n (sort_key f ks))"
    by (rule distinct_card)
  then show ?thesis using assms(2) by simp
qed

lemma length_evict:
  assumes "0 \<le> MaxCacheSize st"
    and "int (length cache) > MaxCacheSize st + MaxCacheSizeOverflow st"
    and "0 \<le> MaxCacheSizeOverflow st"
    and "distinct (obj_keys cache)"
  shows "int (length (cacheQuery_evict st cache)) = MaxCacheSize st"
proof -
  let ?n = "nat (int (length cache) - MaxCacheSize st)"
  let ?E = "set (take ?n (sort_key (hits_of cache) (obj_keys cache)))"
  have n: "?n \<le> length (obj_keys cache)"
    using assms(1) by (simp add: obj_keys_def)
  have sub: "?E \<subseteq> set (obj_keys cache)"
    using set_take_subset [of ?n "sort_key (hits_of cache) (obj_keys cache)"] by simp
  have "length (cacheQuery_evict st cache) = length cache - card ?E"
    using evict_filter [OF assms(1,2)] length_filter_keys [OF assms(4) sub] by simp
  also have "card ?E = ?n"
    using card_take_sorted [OF assms(4) n] .
  finally show ?thesis using assms(1,2,3) by simp
qed

lemma distinct_evict:
  "distinct (obj_keys cache) \<Longrightarrow> distinct (obj_keys (cacheQuery_evict st cache))"
  by (simp add: cacheQuery_evict_def Let_def fold_delete_filter obj_keys_def distinct_map_filter)

subsection \<open>The size of the cache\<close>

lemma getCacheSize_length: "getCacheSize s = length (geocodeCache s)"
  by (simp add: getCacheSize_def obj_keys_def)

lemma cacheQuery_cache:
  "geocodeCache (cacheQuery st q c s)
     = obj_set (key q) \<lparr>cache_query = q, coordinate = c\<rparr> (cacheQuery_evict st (geocodeCache s))"
  by (simp add: cacheQuery_def)

lemma distinct_cacheQuery:
  "distinct (obj_keys (geocodeCache s)) \<Longrightarrow> distinct (obj_keys (geocodeCache (cacheQuery st q c s)))"
  by (simp add: cacheQuery_cache distinct_obj_set distinct_evict)

lemma size_cacheQuery:
  assumes "0 \<le> MaxCacheSize st" and "0 \<le> MaxCacheSizeOverflow st"
    and "distinct (obj_keys (geocodeCache s))"
  shows "int (getCacheSize (cacheQuery st q c s))
           \<le> (if MaxCacheSize st + MaxCacheSizeOverflow st < int (getCacheSize s)
               then MaxCacheSize st + 1 else int (getCacheSize s) + 1)"
proof (cases "MaxCacheSize st + MaxCacheSizeOverflow st < int (getCacheSize s)")
  case True
  then have "int (length (cacheQuery_evict st (geocodeCache s))) = MaxCacheSize st"
    using length_evict [of st "geocodeCache s"] assms by (simp add: getCacheSize_length)
  then show ?thesis
    using True by (simp add: getCacheSize_length cacheQuery_cache length_obj_set)
next
  case False
  then have "cacheQuery_evict st (geocodeCache s) = geocodeCache s"
    using evict_unchanged [where cache = "geocodeCache s" and st = st] by (simp add: getCacheSize_length)
  then show ?thesis
    using False by (simp add: getCacheSize_length cacheQuery_cache length_obj_set)
qed

lemma cacheQuery_all_invariant:
  assumes "0 \<le> MaxCacheSize st" and "0 \<le> MaxCacheSizeOverflow st"
  shows "distinct (obj_keys (geocodeCache s))
           \<and> int (getCacheSize s) \<le> MaxCacheSize st + MaxCacheSizeOverflow st + 1
         \<Longrightarrow> distinct (obj_keys (geocodeCache (cacheQuery_all st ins s)))
           \<and> int (getCacheSize (cacheQuery_all st ins s))
               \<le> MaxCacheSize st + MaxCacheSizeOverflow st + 1"
proof (induction ins arbitrary: s)
  case Nil
  then show ?case by (simp add: cacheQuery_all_def)
next
  case (Cons x ins)
  obtain q c where x: "x = (q, c)" by (cases x)
  have d: "distinct (obj_keys (geocodeCache (cacheQuery st q c s)))"
    using Cons.prems by (simp add: distinct_cacheQuery)
  have "int (getCacheSize (cacheQuery st q c s)) \<le> MaxCacheSize st + MaxCacheSizeOverflow st + 1"
    using size_cacheQuery [OF assms, of s q c] Cons.prems assms by (simp split: if_splits)
  with d have "distinct (obj_keys (geocodeCache (cacheQuery_all st ins (cacheQuery st q c s))))
           \<and> int (getCacheSize (cacheQuery_all st ins (cacheQuery st q c s)))
               \<le> MaxCacheSize st + MaxCacheSizeOverflow st + 1"
    by (intro Cons.IH) simp
  then show ?case by (simp add: cacheQuery_all_def x)
qed

lemma reset_cache: "geocodeCache (reset s) = []"
  by (simp add: reset_def clearTimeout_def split: option.splits)

lemma toLowerCase_replicate_a:
  "toLowerCase (replicate n (CHR ''a'')) = replicate n (CHR ''a'')"
  by (simp add: toLowerCase_def lower_char_def)

lemma distinct_inserts_Suc:
  "distinct_inserts (Suc n)
     = distinct_inserts n @ [(new_GeocodeQuery (replicate (Suc n) (CHR ''a'')), somewhere)]"
  by (simp add: distinct_inserts_def)

lemma cacheQuery_all_append:
  "cacheQuery_all st (xs @ ys) s = cacheQuery_all st ys (cacheQuery_all st xs s)"
  by (simp add: cacheQuery_all_def)

lemma fill_cache:
  assumes "geocodeCache s = []"
  shows "int n \<le> MaxCacheSize st + MaxCacheSizeOverflow st + 1 \<Longrightarrow>
         getCacheSize (cacheQuery_all st (distinct_inserts n) s) = n
         \<and> set (obj_keys (geocodeCache (cacheQuery_all st (distinct_inserts n) s)))
             = (\<lambda>i. replicate (Suc i) (CHR ''a'')) ` {0 ..< n}"
proof (induction n)
  case 0
  then show ?case
    using assms by (simp add: distinct_inserts_def cacheQuery_all_def getCacheSize_length obj_keys_def)
next
  case (Suc n)
  let ?t = "cacheQuery_all st (distinct_inserts n) s"
  let ?k = "replicate (Suc n) (CHR ''a'')"
  from Suc have size: "getCacheSize ?t = n"
    and ks: "set (obj_keys (geocodeCache ?t)) = (\<lambda>i. replicate (Suc i) (CHR ''a'')) ` {0 ..< n}"
    by simp_all
  have noevict: "cacheQuery_evict st (geocodeCache ?t) = geocodeCache ?t"
    using evict_unchanged [where cache = "geocodeCache ?t" and st = st] size Suc.prems
    by (simp add: getCacheSize_length)
  have new: "\<not> obj_in ?k (geocodeCache ?t)"
  proof
    assume "obj_in ?k (geocodeCache ?t)"
    then obtain i where "i < n" and "?k = replicate (Suc i) (CHR ''a'')"
      using ks by (auto simp: obj_in_def)
    then have "length ?k = length (replicate (Suc i) (CHR ''a''))" by simp
    with \<open>i < n\<close> show False by simp
  qed
  have step: "geocodeCache (cacheQuery_all st (distinct_inserts (Suc n)) s)
          = obj_set ?k \<lparr>cache_query = new_GeocodeQuery ?k, coordinate = somewhere\<rparr> (geocodeCache ?t)"
    using noevict
    by (simp add: distinct_inserts_Suc cacheQuery_all_append del: replicate.simps)
       (simp add: cacheQuery_all_def cacheQuery_cache new_GeocodeQuery_def toLowerCase_replicate_a
             del: replicate.simps)
  show ?case
    using size new ks
    by (simp add: getCacheSize_length step length_obj_set keys_obj_set atLeast0_lessThan_Suc
          del: replicate.simps) 
qed

text \<open>
  Claim C1, as amended. Whatever insertions are made into the cache after a
  \<^verbatim>\<open>reset\<close>, with settings that are not negative, the cache never holds more than
  \<open>MaxCacheSize + MaxCacheSizeOverflow + 1\<close> entries; and an insertion that finds more
  than \<open>MaxCacheSize + MaxCacheSizeOverflow\<close> entries leaves at most
  \<open>MaxCacheSize + 1\<close>.
\<close>

theorem cache_size_after_insertions:
  assumes "0 \<le> MaxCacheSize st" and "0 \<le> MaxCacheSizeOverflow st"
  shows "int (getCacheSize (cacheQuery_all st ins (reset s)))
           \<le> MaxCacheSize st + MaxCacheSizeOverflow st + 1
         \<and> (MaxCacheSize st + MaxCacheSizeOverflow st
               < int (getCacheSize (cacheQuery_all st ins (reset s)))
            \<longrightarrow> int (getCacheSize (cacheQuery st q c (cacheQuery_all st ins (reset s))))
                  \<le> MaxCacheSize st + 1)"
proof -
  have start: "distinct (obj_keys (geocodeCache (reset s)))
           \<and> int (getCacheSize (reset s)) \<le> MaxCacheSize st + MaxCacheSizeOverflow st + 1"
    using assms by (simp add: reset_cache getCacheSize_length obj_keys_def)
  note inv = cacheQuery_all_invariant [OF assms start, of ins]
  from inv have d: "distinct (obj_keys (geocodeCache (cacheQuery_all st ins (reset s))))" ..
  show ?thesis
    using inv size_cacheQuery [OF assms d, of q c] by (simp split: if_splits)
qed

text \<open>With \<open>MaxCacheSize = 1\<close> and \<open>MaxCacheSizeOverflow = 1\<close>: three insertions leave
  three entries, and the fourth leaves two.\<close>

theorem cache_size_after_insertions_witness:
  "0 \<le> MaxCacheSize \<lparr>MaxAzureRequest = 6, MaxCacheSize = 1, MaxCacheSizeOverflow = 1\<rparr>
   \<and> 0 \<le> MaxCacheSizeOverflow \<lparr>MaxAzureRequest = 6, MaxCacheSize = 1, MaxCacheSizeOverflow = 1\<rparr>
   \<and> getCacheSize (cacheQuery_all \<lparr>MaxAzureRequest = 6, MaxCacheSize = 1, MaxCacheSizeOverflow = 1\<rparr>
                        (distinct_inserts 3) (reset initial)) = 3
   \<and> int (getCacheSize
           (cacheQuery \<lparr>MaxAzureRequest = 6, MaxCacheSize = 1, MaxCacheSizeOverflow = 1\<rparr>
              (new_GeocodeQuery ''b'') somewhere
              (cacheQuery_all \<lparr>MaxAzureRequest = 6, MaxCacheSize = 1, MaxCacheSizeOverflow = 1\<rparr>
                 (distinct_inserts 3) (reset initial)))) \<le> 2"
proof -
  let ?st = "\<lparr>MaxAzureRequest = 6, MaxCacheSize = 1, MaxCacheSizeOverflow = 1\<rparr>"
  have size: "getCacheSize (cacheQuery_all ?st (distinct_inserts 3) (reset initial)) = 3"
    using fill_cache [OF reset_cache, of 3 ?st initial] by simp
  show ?thesis
    using size
      cache_size_after_insertions [of ?st "distinct_inserts 3" initial "new_GeocodeQuery ''b''" somewhere]
    by simp
qed

text \<open>
  Claim C1 as the specification states it, that the size after any insertion is at most
  \<open>MaxCacheSize + 1\<close>, fails: with the default settings, 3002 insertions under 3002
  different keys leave 3002 entries, and eviction has not run yet.
\<close>

theorem cache_size_counterexample:
  "\<not> int (getCacheSize (cacheQuery_all default_settings (distinct_inserts 3002) initial))
       \<le> MaxCacheSize default_settings + 1"
proof -
  have "geocodeCache initial = []" by (simp add: initial_def)
  from fill_cache [OF this, of 3002 default_settings]
  have "getCacheSize (cacheQuery_all default_settings (distinct_inserts 3002) initial) = 3002"
    by (simp add: default_settings_def)
  then show ?thesis by (simp add: default_settings_def)
qed

subsection \<open>What eviction removes\<close>

lemma sorted_take_drop:
  assumes "sorted (map f xs)" and "a \<in> set (take n xs)" and "b \<in> set (drop n xs)"
  shows "f a \<le> f b"
proof -
  have "sorted (map f (take n xs) @ map f (drop n xs))"
    using assms(1) by (simp flip: map_append)
  then show ?thesis
    using assms(2,3) by (auto simp: sorted_append)
qed

text \<open>
  Claim C3. When \<^verbatim>\<open>cacheQuery\<close> finds more than \<open>MaxCacheSize + MaxCacheSizeOverflow\<close>
  entries, a set \<open>E\<close> of exactly \<open>size - MaxCacheSize\<close> keys is removed, no key of \<open>E\<close>
  has more hits than a key that stays, every other entry stays as it was, and then the
  new entry is stored.
\<close>

theorem eviction_removes_lowest:
  assumes "0 \<le> MaxCacheSize st"
    and "distinct (obj_keys (geocodeCache s))"
    and "MaxCacheSize st + MaxCacheSizeOverflow st < int (getCacheSize s)"
  shows "\<exists>E. E \<subseteq> set (obj_keys (geocodeCache s))
           \<and> card E = nat (int (getCacheSize s) - MaxCacheSize st)
           \<and> (\<forall>a\<in>E. \<forall>b\<in>set (obj_keys (geocodeCache s)) - E.
                  hits_of (geocodeCache s) a \<le> hits_of (geocodeCache s) b)
           \<and> geocodeCache (cacheQuery st q c s)
               = obj_set (key q) \<lparr>cache_query = q, coordinate = c\<rparr>
                   (filter (\<lambda>p. fst p \<notin> E) (geocodeCache s))"
proof -
  let ?cache = "geocodeCache s"
  let ?n = "nat (int (length ?cache) - MaxCacheSize st)"
  let ?srt = "sort_key (hits_of ?cache) (obj_keys ?cache)"
  let ?E = "set (take ?n ?srt)"
  have n: "?n \<le> length (obj_keys ?cache)"
    using assms(1) by (simp add: obj_keys_def)
  have sub: "?E \<subseteq> set (obj_keys ?cache)"
    using set_take_subset [of ?n ?srt] by simp
  have card: "card ?E = nat (int (getCacheSize s) - MaxCacheSize st)"
    using card_take_sorted [OF assms(2) n] by (simp add: getCacheSize_length)
  have low: "\<forall>a\<in>?E. \<forall>b\<in>set (obj_keys ?cache) - ?E. hits_of ?cache a \<le> hits_of ?cache b"
  proof (intro ballI)
    fix a b
    assume a: "a \<in> ?E" and b: "b \<in> set (obj_keys ?cache) - ?E"
    have "set ?srt = set (take ?n ?srt) \<union> set (drop ?n ?srt)"
      by (simp flip: set_append)
    with b have "b \<in> set (drop ?n ?srt)" by auto
    with a show "hits_of ?cache a \<le> hits_of ?cache b"
      using sorted_take_drop [of "hits_of ?cache" ?srt a ?n b] by simp
  qed
  have "geocodeCache (cacheQuery st q c s)
          = obj_set (key q) \<lparr>cache_query = q, coordinate = c\<rparr>
              (filter (\<lambda>p. fst p \<notin> ?E) ?cache)"
    using evict_filter [OF assms(1), of ?cache] assms(3)
    by (simp add: cacheQuery_cache getCacheSize_length)
  with sub card low show ?thesis by blast
qed

text \<open>The cache with hit counts 5, 0, 3, 1, 8, \<open>MaxCacheSize = 3\<close> and
  \<open>MaxCacheSizeOverflow = 1\<close>: two entries go, those with 0 and 1 hits; those with 5, 3
  and 8 hits stay, and the new entry follows them.\<close>

theorem eviction_removes_lowest_witness:
  "0 \<le> MaxCacheSize \<lparr>MaxAzureRequest = 6, MaxCacheSize = 3, MaxCacheSizeOverflow = 1\<rparr>
   \<and> distinct (obj_keys (geocodeCache five_entries))
   \<and> nat (int (getCacheSize five_entries)
            - MaxCacheSize \<lparr>MaxAzureRequest = 6, MaxCacheSize = 3, MaxCacheSizeOverflow = 1\<rparr>) = 2
   \<and> (\<exists>E. E \<subseteq> set (obj_keys (geocodeCache five_entries))
          \<and> card E = 2
          \<and> (\<forall>a\<in>E. \<forall>b\<in>set (obj_keys (geocodeCache five_entries)) - E.
                 hits_of (geocodeCache five_entries) a \<le> hits_of (geocodeCache five_entries) b)
          \<and> geocodeCache
                (cacheQuery \<lparr>MaxAzureRequest = 6, MaxCacheSize = 3, MaxCacheSizeOverflow = 1\<rparr>
                   (new_GeocodeQuery ''f'') somewhere five_entries)
              = obj_set (key (new_GeocodeQuery ''f''))
                  \<lparr>cache_query = new_GeocodeQuery ''f'', coordinate = somewhere\<rparr>
                  (filter (\<lambda>p. fst p \<notin> E) (geocodeCache five_entries)))
   \<and> geocodeCache
         (cacheQuery \<lparr>MaxAzureRequest = 6, MaxCacheSize = 3, MaxCacheSizeOverflow = 1\<rparr>
            (new_GeocodeQuery ''f'') somewhere five_entries)
       = [entry ''a'' 5, entry ''c'' 3, entry ''e'' 8, entry ''f'' 0]"
proof -
  let ?st = "\<lparr>MaxAzureRequest = 6, MaxCacheSize = 3, MaxCacheSizeOverflow = 1\<rparr>"
  have h1: "0 \<le> MaxCacheSize ?st" by simp
  have h2: "distinct (obj_keys (geocodeCache five_entries))"
    by (simp add: five_entries_def entry_def obj_keys_def)
  have size: "getCacheSize five_entries = 5"
    by (simp add: getCacheSize_length five_entries_def)
  have h3: "MaxCacheSize ?st + MaxCacheSizeOverflow ?st < int (getCacheSize five_entries)"
    by (simp add: size)
  have result: "geocodeCache (cacheQuery ?st (new_GeocodeQuery ''f'') somewhere five_entries)
                  = [entry ''a'' 5, entry ''c'' 3, entry ''e'' 8, entry ''f'' 0]"
    by (simp add: cacheQuery_def cacheQuery_evict_def five_entries_def initial_def entry_def
          obj_keys_def hits_of_def obj_get_def getCacheHits_def sorted_at_def obj_delete_def
          obj_set_def obj_in_def new_GeocodeQuery_def toLowerCase_def lower_char_def
          array_index_def is_digit_def Let_def upt_rec)
  from eviction_removes_lowest [OF h1 h2 h3, of "new_GeocodeQuery ''f''" somewhere]
  show ?thesis
    using h2 result by (simp add: size)
qed

subsection \<open>What each function leaves alone\<close>

lemma findInCache_frame:
  "activeRequests (snd (findInCache q s)) = activeRequests s"
  "geocodeQueue (snd (findInCache q s)) = geocodeQueue s"
  "inflight (snd (findInCache q s)) = inflight s"
  "calls (snd (findInCache q s)) = calls s"
  "timers (snd (findInCache q s)) = timers s"
  "injected (snd (findInCache q s)) = injected s"
  "initCacheTbl (snd (findInCache q s)) = initCacheTbl s"
  by (simp_all add: findInCache_def split: option.splits)

lemma makeRequest_frame:
  "activeRequests (makeRequest item s) = activeRequests s"
  "geocodeQueue (makeRequest item s) = geocodeQueue s"
  "injected (makeRequest item s) = injected s"
  "initCacheTbl (makeRequest item s) = initCacheTbl s"
  by (simp_all add: makeRequest_def findInCache_def invoke_def setTimeout_release_def Let_def
        split: option.splits prod.splits)

lemma completeRequest_frame:
  "activeRequests (completeRequest st item r s) = activeRequests s"
  "geocodeQueue (completeRequest st item r s) = geocodeQueue s"
  "inflight (completeRequest st item r s) = inflight s"
  "injected (completeRequest st item r s) = injected s"
  "initCacheTbl (completeRequest st item r s) = initCacheTbl s"
  by (simp_all add: completeRequest_def setTimeout_release_def invoke_def cacheQuery_def Let_def
        split: sum.splits)

lemma makeRequest_then_shape:
  "makeRequest_then st gbi item data s = Inr s' \<Longrightarrow> \<exists>r. s' = completeRequest st item r s"
  by (auto simp: makeRequest_then_def Let_def split: option.splits if_splits prod.splits)

lemma makeRequest_settled_shape:
  "\<exists>r. makeRequest_settled st gbi item fr s = completeRequest st item r s"
proof (cases fr)
  case TransportFailure
  then show ?thesis by (auto simp: makeRequest_settled_def)
next
  case (Data data)
  show ?thesis
  proof (cases "makeRequest_then st gbi item data s")
    case (Inl err)
    then show ?thesis using Data by (auto simp: makeRequest_settled_def)
  next
    case (Inr s')
    then show ?thesis
      using Data makeRequest_then_shape [OF Inr] by (auto simp: makeRequest_settled_def)
  qed
qed

subsection \<open>Evaluation\<close>

lemmas model_defs =
  run_def step_def query_async_def query_sync_def geocodeCore_def releaseQuota_def
  releaseQuota_loop.simps makeRequest_def makeRequest_settled_def makeRequest_then_def
  completeRequest_def cacheQuery_def cacheQuery_evict_def findInCache_def invoke_def
  setTimeout_release_def clearTimeout_def write_address_def reset_def inject_def remove_def
  initCache_def copy_def initial_def new_GeocodeQuery_def toLowerCase_def lower_char_def
  incrementCacheHit_def getCacheHits_def hits_of_def sorted_at_def getCacheSize_def
  obj_keys_def obj_get_def obj_in_def obj_delete_def obj_set_def array_index_def is_digit_def
  or_else_def and_field_def getBestResultIndex_def default_settings_def Let_def

lemma at_capacity_state:
  "activeRequests at_capacity = 6"
  "map then_cb (geocodeQueue at_capacity) = [7, 8, 9]"
  "map then_cb (inflight at_capacity) = [1, 2, 3, 4, 5, 6]"
  "geocodeCache at_capacity = []"
  by (simp_all add: at_capacity_def nine_queries_def model_defs)

subsection \<open>The number of requests in flight\<close>

lemma loop_active_le:
  "activeRequests s \<le> MaxAzureRequest st
     \<Longrightarrow> activeRequests (releaseQuota_loop st s) \<le> MaxAzureRequest st"
proof (induction st s rule: releaseQuota_loop.induct)
  case (1 st s)
  show ?case
  proof (cases "activeRequests s < MaxAzureRequest st")
    case False
    then show ?thesis
      using "1.prems" by (subst releaseQuota_loop.simps) simp
  next
    case True
    show ?thesis
    proof (cases "geocodeQueue s")
      case Nil
      then show ?thesis
        using "1.prems" by (subst releaseQuota_loop.simps) simp
    next
      case (Cons item rest)
      have "activeRequests
              (releaseQuota_loop st
                 (makeRequest item
                    (s\<lparr>activeRequests := activeRequests s + 1, geocodeQueue := rest\<rparr>)))
              \<le> MaxAzureRequest st"
        using True Cons by (intro "1.IH") (simp_all add: makeRequest_frame)
      then show ?thesis
        using True Cons by (subst releaseQuota_loop.simps) simp
    qed
  qed
qed

lemma releaseQuota_active_le:
  "activeRequests s - d \<le> MaxAzureRequest st
     \<Longrightarrow> activeRequests (releaseQuota st d s) \<le> MaxAzureRequest st"
  by (simp add: releaseQuota_def loop_active_le)

lemma geocodeCore_active_le:
  "activeRequests s \<le> MaxAzureRequest st
     \<Longrightarrow> activeRequests (geocodeCore st q cb s) \<le> MaxAzureRequest st"
  using findInCache_frame(1) [of q s]
  by (auto simp: geocodeCore_def invoke_def releaseQuota_active_le split: prod.splits option.splits)

lemma step_active_le:
  assumes "0 \<le> MaxAzureRequest st" and "activeRequests s \<le> MaxAzureRequest st"
  shows "activeRequests (step st gbi ev s) \<le> MaxAzureRequest st"
proof (cases ev)
  case (Inject locs r)
  then show ?thesis using assms(2) by (simp add: step_def inject_def Let_def)
next
  case (Remove wh)
  then show ?thesis using assms(2) by (simp add: step_def remove_def)
next
  case (InitCache locs)
  then show ?thesis using assms(2) by (simp add: step_def initCache_def)
next
  case (QuerySync addr)
  then show ?thesis
    using assms(2) by (simp add: step_def query_sync_def split: option.splits)
next
  case (QueryAsync addr cb)
  then show ?thesis
    using assms(2) geocodeCore_active_le [OF assms(2), of "new_GeocodeQuery addr" cb]
    by (auto simp: step_def query_async_def invoke_def split: option.splits sum.splits if_splits)
next
  case (TimerFires t)
  then show ?thesis
    using assms(2) by (simp add: step_def releaseQuota_active_le)
next
  case (FetchSettles i fr)
  obtain r where "makeRequest_settled st gbi (inflight s ! i) fr
                    (s\<lparr>inflight := take i (inflight s) @ drop (Suc i) (inflight s)\<rparr>)
                  = completeRequest st (inflight s ! i) r
                      (s\<lparr>inflight := take i (inflight s) @ drop (Suc i) (inflight s)\<rparr>)"
    using makeRequest_settled_shape by blast
  then show ?thesis
    using FetchSettles assms(2) by (simp add: step_def completeRequest_frame)
next
  case Reset
  then show ?thesis
    using assms(1) by (simp add: step_def reset_def clearTimeout_def split: option.splits)
qed

text \<open>
  Claim C2. Whatever happens to the module (calls of its functions, with any number of
  requests submitted, timers that fire, requests that settle), \<^verbatim>\<open>activeRequests\<close> stays
  at most \<^verbatim>\<open>MaxAzureRequest\<close>, provided that it starts so and that the setting is not
  negative.
\<close>

theorem active_requests_capped:
  assumes "0 \<le> MaxAzureRequest st" and "activeRequests s \<le> MaxAzureRequest st"
  shows "activeRequests (run st gbi evs s) \<le> MaxAzureRequest st"
  using assms(2)
proof (induction evs arbitrary: s)
  case Nil
  then show ?case by (simp add: run_def)
next
  case (Cons ev evs)
  have "activeRequests (step st gbi ev s) \<le> MaxAzureRequest st"
    using step_active_le [OF assms(1) Cons.prems] .
  from Cons.IH [OF this] show ?case by (simp add: run_def)
qed

text \<open>Nine requests submitted to the module as loaded, with the default settings: six
  are in flight.\<close>

theorem active_requests_capped_witness:
  "0 \<le> MaxAzureRequest default_settings
   \<and> activeRequests initial \<le> MaxAzureRequest default_settings
   \<and> activeRequests (run default_settings None nine_queries initial) = 6
   \<and> activeRequests (run default_settings None nine_queries initial)
       \<le> MaxAzureRequest default_settings"
proof -
  have h1: "0 \<le> MaxAzureRequest default_settings"
    by (simp add: default_settings_def)
  have h2: "activeRequests initial \<le> MaxAzureRequest default_settings"
    by (simp add: default_settings_def initial_def)
  from active_requests_capped [OF h1 h2, of None nine_queries]
  show ?thesis
    using h1 h2 at_capacity_state(1) by (simp add: at_capacity_def)
qed

subsection \<open>A request that fails\<close>

text \<open>
  Claim C5. When the request of a dispatched item fails (the transport fails, or the
  body is malformed or has no result), the item's completion is called with no location
  and the cache, hence its size, is as before.
\<close>

theorem failure_leaves_cache:
  assumes "fr = TransportFailure \<or> fr = Data None \<or> fr = Data (Some [])"
  shows "calls (makeRequest_settled st gbi item fr s) = calls s @ [(then_cb item, None)]
         \<and> geocodeCache (makeRequest_settled st gbi item fr s) = geocodeCache s
         \<and> getCacheSize (makeRequest_settled st gbi item fr s) = getCacheSize s"
  using assms
  by (auto simp: makeRequest_settled_def makeRequest_then_def completeRequest_def
        setTimeout_release_def invoke_def getCacheSize_def)


text \<open>An empty result, for a cache of five entries.\<close>

theorem failure_leaves_cache_witness:
  "calls (makeRequest_settled default_settings None
            \<lparr>item_query = new_GeocodeQuery ''a'', then_cb = 1\<rparr> (Data (Some [])) five_entries)
     = [(1, None)]
   \<and> getCacheSize (makeRequest_settled default_settings None
            \<lparr>item_query = new_GeocodeQuery ''a'', then_cb = 1\<rparr> (Data (Some [])) five_entries)
     = 5"
  using failure_leaves_cache [of "Data (Some [])" default_settings None
          "\<lparr>item_query = new_GeocodeQuery ''a'', then_cb = 1\<rparr>" five_entries]
  by (simp add: five_entries_def initial_def getCacheSize_def obj_keys_def)

subsection \<open>The order of dispatch\<close>

lemma queue_fold_dispatch:
  "geocodeQueue (fold dispatch xs s) = drop (length xs) (geocodeQueue s)"
proof (induction xs arbitrary: s)
  case Nil
  then show ?case by simp
next
  case (Cons x xs)
  have "geocodeQueue (dispatch x s) = tl (geocodeQueue s)"
    by (simp add: dispatch_def makeRequest_frame)
  then show ?case
    by (simp add: Cons.IH drop_Suc)
qed

lemma loop_fold_dispatch:
  "releaseQuota_loop st s
     = fold dispatch (take (nat (MaxAzureRequest st - activeRequests s)) (geocodeQueue s)) s"
proof (induction st s rule: releaseQuota_loop.induct)
  case (1 st s)
  show ?case
  proof (cases "activeRequests s < MaxAzureRequest st")
    case False
    then show ?thesis
      by (subst releaseQuota_loop.simps) simp
  next
    case True
    show ?thesis
    proof (cases "geocodeQueue s")
      case Nil
      then show ?thesis
        by (subst releaseQuota_loop.simps) simp
    next
      case (Cons item rest)
      let ?s' = "makeRequest item (s\<lparr>activeRequests := activeRequests s + 1, geocodeQueue := rest\<rparr>)"
      have d: "dispatch item s = ?s'"
        using Cons by (simp add: dispatch_def)
      have "releaseQuota_loop st s = releaseQuota_loop st ?s'"
        using True Cons by (subst releaseQuota_loop.simps) simp
      also have "\<dots> = fold dispatch
                     (take (nat (MaxAzureRequest st - activeRequests ?s')) (geocodeQueue ?s')) ?s'"
        using True Cons by (intro "1.IH")
      also have "\<dots> = fold dispatch
                     (take (nat (MaxAzureRequest st - activeRequests s)) (geocodeQueue s)) s"
        using True Cons d
        by (simp add: makeRequest_frame take_Cons' nat_diff_distrib' flip: diff_diff_eq)
      finally show ?thesis .
    qed
  qed
qed

text \<open>
  Claim C6. \<^verbatim>\<open>releaseQuota\<close> takes the items from the head of the queue, one for each
  free slot, and hands them to \<^verbatim>\<open>makeRequest\<close> in the order of the queue; what is left
  of the queue is the rest, in the same order. A request that misses the cache joins the
  queue at its tail.
\<close>

theorem fifo_dispatch:
  "releaseQuota st d s
     = fold dispatch (take (slots st d s) (geocodeQueue s))
         (s\<lparr>activeRequests := activeRequests s - d\<rparr>)
   \<and> geocodeQueue (releaseQuota st d s) = drop (slots st d s) (geocodeQueue s)
   \<and> (obj_get (geocodeCache s) (key q) = None \<longrightarrow>
        geocodeCore st q cb s
          = releaseQuota st 0 (s\<lparr>geocodeQueue := geocodeQueue s @ [\<lparr>item_query = q, then_cb = cb\<rparr>]\<rparr>))"
proof -
  have a: "releaseQuota st d s
     = fold dispatch (take (slots st d s) (geocodeQueue s))
         (s\<lparr>activeRequests := activeRequests s - d\<rparr>)"
    by (simp add: releaseQuota_def loop_fold_dispatch slots_def)
  have b: "geocodeQueue (releaseQuota st d s) = drop (slots st d s) (geocodeQueue s)"
    unfolding a by (simp add: queue_fold_dispatch min_def)
  have c: "obj_get (geocodeCache s) (key q) = None \<longrightarrow>
        geocodeCore st q cb s
          = releaseQuota st 0 (s\<lparr>geocodeQueue := geocodeQueue s @ [\<lparr>item_query = q, then_cb = cb\<rparr>]\<rparr>)"
    by (simp add: geocodeCore_def findInCache_def)
  from a b c show ?thesis by blast
qed


text \<open>With three items queued behind six requests in flight, a tenth request joins the
  queue last; and when one slot is released the first of the queue, and only it, is
  dispatched.\<close>

theorem fifo_dispatch_witness:
  "obj_get (geocodeCache at_capacity) (key (new_GeocodeQuery ''j'')) = None
   \<and> map then_cb (geocodeQueue (geocodeCore default_settings (new_GeocodeQuery ''j'') 10 at_capacity))
       = [7, 8, 9, 10]
   \<and> slots default_settings 1 at_capacity = 1
   \<and> releaseQuota default_settings 1 at_capacity
       = dispatch (hd (geocodeQueue at_capacity)) (at_capacity\<lparr>activeRequests := 5\<rparr>)
   \<and> map then_cb (geocodeQueue (releaseQuota default_settings 1 at_capacity)) = [8, 9]
   \<and> map then_cb (inflight (releaseQuota default_settings 1 at_capacity)) = [1, 2, 3, 4, 5, 6, 7]"
proof -
  note inst = fifo_dispatch [of default_settings 1 at_capacity "new_GeocodeQuery ''j''" 10]
  have miss: "obj_get (geocodeCache at_capacity) (key (new_GeocodeQuery ''j'')) = None"
    by (simp add: at_capacity_state obj_get_def)
  have n: "slots default_settings 1 at_capacity = 1"
    by (simp add: slots_def at_capacity_state default_settings_def)
  obtain q1 q2 q3 where q: "geocodeQueue at_capacity = [q1, q2, q3]"
    and cbs: "then_cb q1 = 7" "then_cb q2 = 8" "then_cb q3 = 9"
    using at_capacity_state(2) by (auto simp: map_eq_Cons_conv)
  have core: "geocodeCore default_settings (new_GeocodeQuery ''j'') 10 at_capacity
          = releaseQuota default_settings 0
              (at_capacity\<lparr>geocodeQueue := geocodeQueue at_capacity
                  @ [\<lparr>item_query = new_GeocodeQuery ''j'', then_cb = 10\<rparr>]\<rparr>)"
    using inst miss by blast
  have q10: "map then_cb (geocodeQueue (geocodeCore default_settings (new_GeocodeQuery ''j'') 10 at_capacity))
       = [7, 8, 9, 10]"
    unfolding core
    using fifo_dispatch [of default_settings 0
            "at_capacity\<lparr>geocodeQueue := geocodeQueue at_capacity
                  @ [\<lparr>item_query = new_GeocodeQuery ''j'', then_cb = 10\<rparr>]\<rparr>"]
    by (simp add: slots_def at_capacity_state default_settings_def q cbs)
  have rel: "releaseQuota default_settings 1 at_capacity
       = dispatch (hd (geocodeQueue at_capacity)) (at_capacity\<lparr>activeRequests := 5\<rparr>)"
    using inst by (simp add: n q at_capacity_state)
  have "geocodeQueue (releaseQuota default_settings 1 at_capacity)
          = drop (slots default_settings 1 at_capacity) (geocodeQueue at_capacity)"
    using inst by blast
  then have rest: "map then_cb (geocodeQueue (releaseQuota default_settings 1 at_capacity)) = [8, 9]"
    by (simp add: n q cbs)
  have fl: "map then_cb (inflight (releaseQuota default_settings 1 at_capacity)) = [1, 2, 3, 4, 5, 6, 7]"
    unfolding rel
    using at_capacity_state(3,4) cbs
    by (simp add: q dispatch_def makeRequest_def findInCache_def obj_get_def)
  from miss q10 n rel rest fl show ?thesis by blast
qed

subsection \<open>Overrides come first\<close>




subsection \<open>The address of a delivered location\<close>
















subsection \<open>The values of the override store\<close>
















subsection \<open>The provider's answer\<close>

text \<open>Were \<^verbatim>\<open>getBestResultIndexAzure\<close> bound to the function that the module declares,
  \<^verbatim>\<open>getBestResultIndex\<close>, an answer whose first candidate has a position would be
  delivered as the location built from that candidate.\<close>

lemma first_candidate_when_bound:
  assumes "results \<noteq> []" and "r_position (hd results) = Some (lat, lon)"
  shows "calls (makeRequest_settled st (Some getBestResultIndex) item (Data (Some results)) s)
           = calls s @
             [(then_cb item,
               Some \<lparr>latitude = lat, longitude = lon,
                     loc_type = or_else (r_type (hd results)) ''Geography'',
                     name = or_else (and_field (r_poi (hd results)))
                              (or_else (and_field (r_address (hd results)))
                                 (query (item_query item))),
                     address = query (item_query item)\<rparr>)]"
  using assms
  by (cases results)
     (simp_all add: makeRequest_settled_def makeRequest_then_def getBestResultIndex_def
        completeRequest_def setTimeout_release_def invoke_def cacheQuery_def Let_def)

lemma bound_index_function:
  "calls (run default_settings (Some getBestResultIndex)
            [QueryAsync ''Space Needle'' 1, FetchSettles 0 (Data (Some [one_result]))] initial)
     = [(1, Some \<lparr>latitude = 47, longitude = - 122, loc_type = ''POI'', name = ''Space Needle'',
                   address = ''Space Needle''\<rparr>)]"
  by (simp add: model_defs one_result_def)

text \<open>
  Claim C4 does not hold of the module as it is written. Nothing binds the name
  \<^verbatim>\<open>getBestResultIndexAzure\<close>, so for an answer with one well-formed candidate the
  handler throws, \<^verbatim>\<open>.catch\<close> completes the request as failed, the completion is called
  with no location and nothing is cached.
\<close>

theorem unbound_index_function:
  "calls (run default_settings None
            [QueryAsync ''Space Needle'' 1, FetchSettles 0 (Data (Some [one_result]))] initial)
     = [(1, None)]
   \<and> getCacheSize (run default_settings None
            [QueryAsync ''Space Needle'' 1, FetchSettles 0 (Data (Some [one_result]))] initial)
     = 0"
  by (simp add: model_defs)


subsection \<open>Reset\<close>

text \<open>What \<^verbatim>\<open>reset\<close> does: the cache and the queue are emptied, the counter is zero,
  and of the pending timers the one that \<^verbatim>\<open>dequeueTimeoutId\<close> names is cancelled.\<close>

lemma reset_effect:
  "getCacheSize (reset s) = 0 \<and> geocodeQueue (reset s) = [] \<and> activeRequests (reset s) = 0
   \<and> dequeueTimeoutId (reset s) = None
   \<and> timers (reset s) = filter (\<lambda>t. Some t \<noteq> dequeueTimeoutId s) (timers s)
   \<and> calls (reset s) = calls s"
  by (cases "dequeueTimeoutId s")
     (auto simp: reset_def clearTimeout_def getCacheSize_def obj_keys_def intro: filter_cong)


end
